theory Spec2Isabelle
  imports Main "HOL-Library.Word"
begin

section \<open>SWF carving: a shallow embedding of \<^verbatim>\<open>swfcarve.py\<close>\<close>

text \<open>
  The plugin scans a payload for the magic of an SWF file and, at every match, parses
  the 8-byte header, decompresses the body and rebuilds an uncompressed SWF. The model
  follows \<^verbatim>\<open>src/swfcarve/swfcarve/swfcarve.py\<close> line by line:
  \<^item> Python \<^verbatim>\<open>bytes\<close> are lists of 8-bit words, Python \<^verbatim>\<open>str\<close> error messages are
    \<^typ>\<open>string\<close>, Python integers are \<^typ>\<open>int\<close>;
  \<^item> the \<^verbatim>\<open>BytesIO\<close> object is a record of its buffer and its position, passed through
    every operation;
  \<^item> every exception the code can raise is a value of \<open>py_exn\<close>, and the two
    \<^verbatim>\<open>try/except\<close> blocks of \<^verbatim>\<open>decompress\<close> are explicit handlers;
  \<^item> \<^verbatim>\<open>zlib.decompress\<close> and \<^verbatim>\<open>pylzma.decompress\<close> are external libraries: they are
    parameters of the model (functions that return bytes or raise);
  \<^item> \<^verbatim>\<open>re.finditer\<close> is written out for the patterns that are alternations of literals,
    as the default pattern is; on every other pattern it is a parameter of the model (a
    function that returns the matches or raises).
\<close>

subsection \<open>Bytes, strings and exceptions\<close>

type_synonym byte = "8 word"
type_synonym bytes = "byte list"

datatype py_exn =
    ValueError            \<comment> \<open>\<^verbatim>\<open>BytesIO.seek\<close> with a negative position\<close>
  | UnicodeDecodeError    \<comment> \<open>\<^verbatim>\<open>bytes.decode()\<close> on bytes that are not UTF-8\<close>
  | StructError           \<comment> \<open>\<^verbatim>\<open>struct.unpack\<close> on a buffer of the wrong size\<close>
  | LibraryError          \<comment> \<open>anything raised by a decompression library\<close>
  | ReError               \<comment> \<open>\<^verbatim>\<open>re.error\<close>: the pattern is not a regular expression\<close>

text \<open>The magic values the code names, as bytes: \<^verbatim>\<open>b'FWS'\<close>, \<^verbatim>\<open>b'CWS'\<close>, \<^verbatim>\<open>b'ZWS'\<close>, \<^verbatim>\<open>b'SWF'\<close>.\<close>

definition bFWS :: bytes where "bFWS = [0x46, 0x57, 0x53]"
definition bCWS :: bytes where "bCWS = [0x43, 0x57, 0x53]"
definition bZWS :: bytes where "bZWS = [0x5A, 0x57, 0x53]"
definition bSWF :: bytes where "bSWF = [0x53, 0x57, 0x46]"

text \<open>
  \<^verbatim>\<open>str.encode()\<close>: an Isabelle \<^typ>\<open>string\<close> is already a sequence of 8-bit characters,
  so a \<^verbatim>\<open>str\<close> is represented by its UTF-8 encoding and encoding it keeps every byte.
\<close>

definition encode :: "string \<Rightarrow> bytes" where
  "encode s = map (\<lambda>c. of_nat (of_char c)) s"

text \<open>
  \<^verbatim>\<open>bytes.decode()\<close> (UTF-8, strict). It raises \<^verbatim>\<open>UnicodeDecodeError\<close> unless the bytes are
  well-formed UTF-8: no stray continuation byte, no overlong form (lead bytes C0, C1, and
  E0 or F0 with a low second byte), no surrogate (ED with a second byte from A0), nothing
  above U+10FFFF, and no sequence cut short. The decoded \<^verbatim>\<open>str\<close> is represented by the
  bytes themselves: decoding is injective, so \<^verbatim>\<open>magic == "ZWS"\<close> on the \<^verbatim>\<open>str\<close> is equality
  with \<^verbatim>\<open>b'ZWS'\<close> on the bytes.
\<close>

definition cont_byte :: "byte \<Rightarrow> bool" where
  "cont_byte b \<longleftrightarrow> 0x80 \<le> b \<and> b \<le> 0xBF"

fun utf8_valid :: "bytes \<Rightarrow> bool" where
  "utf8_valid [] = True"
| "utf8_valid (b0 # bs) =
     (if b0 < 0x80 then utf8_valid bs
      else if 0xC2 \<le> b0 \<and> b0 \<le> 0xDF then
        (case bs of
           b1 # r \<Rightarrow> cont_byte b1 \<and> utf8_valid r
         | _ \<Rightarrow> False)
      else if 0xE0 \<le> b0 \<and> b0 \<le> 0xEF then
        (case bs of
           b1 # b2 # r \<Rightarrow>
             (if b0 = 0xE0 then 0xA0 \<le> b1 \<and> b1 \<le> 0xBF
              else if b0 = 0xED then 0x80 \<le> b1 \<and> b1 \<le> 0x9F
              else cont_byte b1)
             \<and> cont_byte b2 \<and> utf8_valid r
         | _ \<Rightarrow> False)
      else if 0xF0 \<le> b0 \<and> b0 \<le> 0xF4 then
        (case bs of
           b1 # b2 # b3 # r \<Rightarrow>
             (if b0 = 0xF0 then 0x90 \<le> b1 \<and> b1 \<le> 0xBF
              else if b0 = 0xF4 then 0x80 \<le> b1 \<and> b1 \<le> 0x8F
              else cont_byte b1)
             \<and> cont_byte b2 \<and> cont_byte b3 \<and> utf8_valid r
         | _ \<Rightarrow> False)
      else False)"

definition decode :: "bytes \<Rightarrow> py_exn + bytes" where
  "decode bs = (if utf8_valid bs then Inr bs else Inl UnicodeDecodeError)"

text \<open>
  \<^verbatim>\<open>struct.unpack('<b', bs)[0]\<close>: one signed byte; \<^verbatim>\<open>struct.unpack('<i', bs)[0]\<close>: a signed
  32-bit little-endian integer. Both raise \<^verbatim>\<open>struct.error\<close> unless the buffer has exactly
  the size of the format.
\<close>

definition unpack_b :: "bytes \<Rightarrow> py_exn + int" where
  "unpack_b bs = (if length bs = 1 then Inr (sint (bs ! 0)) else Inl StructError)"

definition le_u32 :: "bytes \<Rightarrow> int" where
  "le_u32 bs = uint (bs ! 0) + 256 * uint (bs ! 1) + 65536 * uint (bs ! 2)
                 + 16777216 * uint (bs ! 3)"

definition le_i32 :: "bytes \<Rightarrow> int" where
  "le_i32 bs = (if le_u32 bs < 2147483648 then le_u32 bs else le_u32 bs - 4294967296)"

definition unpack_i :: "bytes \<Rightarrow> py_exn + int" where
  "unpack_i bs = (if length bs = 4 then Inr (le_i32 bs) else Inl StructError)"

text \<open>\<^verbatim>\<open>str(n)\<close> of a Python integer, as the f-string of line 137 formats the offset.\<close>

definition digit_char :: "nat \<Rightarrow> char" where
  "digit_char d = ''0123456789'' ! d"

fun str_nat :: "nat \<Rightarrow> string" where
  "str_nat n = (if n < 10 then [digit_char n] else str_nat (n div 10) @ [digit_char (n mod 10)])"

declare str_nat.simps [simp del]

definition str_int :: "int \<Rightarrow> string" where
  "str_int i = (if i < 0 then CHR ''-'' # str_nat (nat (- i)) else str_nat (nat i))"

subsection \<open>The stream: \<^verbatim>\<open>io.BytesIO\<close>\<close>

record BytesIO =
  buf :: bytes
  pos :: nat

definition BytesIO_new :: "bytes \<Rightarrow> BytesIO" where
  "BytesIO_new b = \<lparr>buf = b, pos = 0\<rparr>"

text \<open>
  A computation on the stream either raises or returns a value, and leaves the stream in
  a new state in both cases.
\<close>

type_synonym 'a io = "BytesIO \<Rightarrow> (py_exn + 'a) \<times> BytesIO"

definition return_io :: "'a \<Rightarrow> 'a io" where
  "return_io a s = (Inr a, s)"

definition bind_io :: "'a io \<Rightarrow> ('a \<Rightarrow> 'b io) \<Rightarrow> 'b io" where
  "bind_io m f s = (case m s of (Inl e, s') \<Rightarrow> (Inl e, s') | (Inr a, s') \<Rightarrow> f a s')"

definition lift_io :: "py_exn + 'a \<Rightarrow> 'a io" where
  "lift_io r s = (r, s)"

definition except_io :: "'a io \<Rightarrow> (py_exn \<Rightarrow> 'a io) \<Rightarrow> 'a io" where
  "except_io m h s = (case m s of (Inl e, s') \<Rightarrow> h e s' | (Inr a, s') \<Rightarrow> (Inr a, s'))"

text \<open>
  \<^verbatim>\<open>content.seek(p)\<close> raises \<^verbatim>\<open>ValueError\<close> on a negative position and accepts any other,
  also one past the end. \<^verbatim>\<open>content.read(n)\<close> returns at most \<open>n\<close> bytes from the position,
  all the remaining bytes when \<open>n\<close> is negative (or absent), and nothing when the position
  is past the end; the position advances by the number of bytes returned. \<open>peek n s\<close> is
  the data \<^verbatim>\<open>read(n)\<close> returns in the state \<open>s\<close>.
\<close>

definition seek :: "int \<Rightarrow> unit io" where
  "seek p s = (if p < 0 then (Inl ValueError, s) else (Inr (), s\<lparr>pos := nat p\<rparr>))"

definition peek :: "int \<Rightarrow> BytesIO \<Rightarrow> bytes" where
  "peek n s =
     (let rest = drop (pos s) (buf s)
      in if n < 0 then rest else take (nat n) rest)"

definition read :: "int \<Rightarrow> bytes io" where
  "read n s = (let data = peek n s in (Inr data, s\<lparr>pos := pos s + length data\<rparr>))"

subsection \<open>The results of \<^verbatim>\<open>decompress\<close>\<close>

text \<open>
  \<^verbatim>\<open>PayloadMeta(extra_data={'offset': offset, 'swf_version': swf_version})\<close> and
  \<^verbatim>\<open>ExtractedPayload(swf, meta)\<close>.
\<close>

record PayloadMeta =
  meta_offset :: int
  meta_swf_version :: int

record ExtractedPayload =
  content :: bytes
  payload_meta :: PayloadMeta

text \<open>
  The first component of the pair \<^verbatim>\<open>decompress\<close> returns is one of three Python values:
  \<^verbatim>\<open>None\<close> (lines 122 and 124), the empty list \<^verbatim>\<open>extracted\<close> was initialised with
  (line 75, returned at line 138 when no object was built), or the \<^verbatim>\<open>ExtractedPayload\<close>
  of line 135. Only the last is truthy for the \<^verbatim>\<open>if ex:\<close> of \<^verbatim>\<open>scan\<close>.
\<close>

datatype extracted = NoneValue | EmptyList | Extracted ExtractedPayload

fun truthy :: "extracted \<Rightarrow> bool" where
  "truthy NoneValue = False"
| "truthy EmptyList = False"
| "truthy (Extracted p) = True"

type_synonym outcome = "extracted \<times> string list"

text \<open>
  The message of line 128 is a plain string literal (it has no \<^verbatim>\<open>f\<close> prefix), so the
  braces and the names between them are part of the message. The message of line 137 is
  an f-string and formats the offset.
\<close>

definition invalid_size_msg :: string where
  "invalid_size_msg =
     ''Invalid size of carved SWF content: {len(content)} != {decompressed_size}''"

definition unable_msg :: "int \<Rightarrow> string" where
  "unable_msg offset = ''Unable to decompress SWF payload at offset '' @ str_int offset"

subsection \<open>\<^verbatim>\<open>PeCarve.decompress\<close>\<close>

text \<open>A decompression library function: it returns the decompressed bytes or raises.\<close>

type_synonym codec = "bytes \<Rightarrow> py_exn + bytes"

text \<open>
  Lines 92 to 104: seek to the offset, read and decode the magic, unpack the version and
  the declared length, then seek back to \<open>offset + 3\<close> and build the header of the output
  from \<^verbatim>\<open>b'FWS'\<close> and the next five bytes. The result is
  \<open>(magic, swf_version, decompressed_size, composite_header)\<close>.
\<close>

definition read_header :: "int \<Rightarrow> (bytes \<times> int \<times> int \<times> bytes) io" where
  "read_header offset =
     bind_io (seek offset) (\<lambda>_.
     bind_io (read 3) (\<lambda>raw.
     bind_io (lift_io (decode raw)) (\<lambda>magic.
     bind_io (read 1) (\<lambda>vb.
     bind_io (lift_io (unpack_b vb)) (\<lambda>swf_version.
     bind_io (read 4) (\<lambda>lb.
     bind_io (lift_io (unpack_i lb)) (\<lambda>declared.
     bind_io (seek (offset + 3)) (\<lambda>_.
     bind_io (read 5) (\<lambda>rest.
     return_io (magic, swf_version, declared - 8, bFWS @ rest))))))))))"

text \<open>
  Lines 108 to 122, the body of the inner \<^verbatim>\<open>try\<close>: the dispatch on the magic. \<open>None\<close> is
  the \<^verbatim>\<open>return None, errors\<close> of the last branch; \<open>Some d\<close> is \<^verbatim>\<open>decompressed_content\<close>.
\<close>

definition dispatch :: "codec \<Rightarrow> codec \<Rightarrow> bytes \<Rightarrow> int \<Rightarrow> bytes option io" where
  "dispatch lzma zlib magic decompressed_size =
     (if magic = bZWS then
        bind_io (seek 12) (\<lambda>_.
        bind_io (read decompressed_size) (\<lambda>d.
        bind_io (lift_io (lzma d)) (\<lambda>r.
        return_io (Some r))))
      else if magic = bCWS then
        bind_io (read decompressed_size) (\<lambda>d.
        bind_io (lift_io (zlib d)) (\<lambda>r.
        return_io (Some r)))
      else if magic = bFWS then
        bind_io (read decompressed_size) (\<lambda>d.
        return_io (Some d))
      else return_io None)"

text \<open>Lines 107 to 124: the inner \<^verbatim>\<open>try\<close> with its bare \<^verbatim>\<open>except: return None, errors\<close>.\<close>

definition try_dispatch :: "codec \<Rightarrow> codec \<Rightarrow> bytes \<Rightarrow> int \<Rightarrow> bytes option io" where
  "try_dispatch lzma zlib magic decompressed_size =
     except_io (dispatch lzma zlib magic decompressed_size) (\<lambda>e. return_io None)"

text \<open>Lines 126 to 135: the size check and the assembly of the object.\<close>

definition assemble :: "int \<Rightarrow> int \<Rightarrow> int \<Rightarrow> bytes \<Rightarrow> bytes option \<Rightarrow> outcome" where
  "assemble offset swf_version decompressed_size composite_header r =
     (case r of
        None \<Rightarrow> (NoneValue, [])
      | Some decompressed_content \<Rightarrow>
          if int (length decompressed_content) \<noteq> decompressed_size
          then (EmptyList, [invalid_size_msg])
          else (Extracted
                  \<lparr>content = composite_header @ decompressed_content,
                   payload_meta = \<lparr>meta_offset = offset, meta_swf_version = swf_version\<rparr>\<rparr>,
                []))"

text \<open>Lines 79 to 135: the body of the outer \<^verbatim>\<open>try\<close>.\<close>

definition decompress_body :: "codec \<Rightarrow> codec \<Rightarrow> int \<Rightarrow> outcome io" where
  "decompress_body lzma zlib offset =
     bind_io (read_header offset) (\<lambda>(magic, swf_version, decompressed_size, composite_header).
     bind_io (try_dispatch lzma zlib magic decompressed_size) (\<lambda>r.
     return_io (assemble offset swf_version decompressed_size composite_header r)))"

text \<open>
  Lines 69 to 138: the outer bare \<^verbatim>\<open>except\<close> appends the message of line 137 to the (still
  empty) error list and falls through to \<^verbatim>\<open>return extracted, errors\<close>, where \<^verbatim>\<open>extracted\<close>
  is still the empty list.
\<close>

definition decompress :: "codec \<Rightarrow> codec \<Rightarrow> int \<Rightarrow> outcome io" where
  "decompress lzma zlib offset =
     except_io (decompress_body lzma zlib offset)
       (\<lambda>e. return_io (EmptyList, [unable_msg offset]))"

subsection \<open>\<^verbatim>\<open>PeCarve._carve\<close> and the configured pattern\<close>

text \<open>
  Line 41: the pattern is the option \<^verbatim>\<open>swf_headers\<close>, \<^verbatim>\<open>'SWF|CWS|FWS'\<close> when the option is
  absent, encoded to bytes.
\<close>

definition swf_headers_fallback :: string where
  "swf_headers_fallback = ''SWF|CWS|FWS''"

definition swf_headers :: "string option \<Rightarrow> bytes" where
  "swf_headers opt = encode (case opt of None \<Rightarrow> swf_headers_fallback | Some v \<Rightarrow> v)"

text \<open>
  The search of \<^verbatim>\<open>re.finditer\<close> for a pattern that is an alternation of literal byte strings
  separated by \<^verbatim>\<open>|\<close>. \<open>alternatives\<close> splits the pattern at each bar. At each position the
  first alternative that matches wins, a match is reported as \<open>(start, end)\<close>, and the
  search goes on at its end. (An empty match would be reported once at a position: after
  it the same position is tried again for a non-empty match only, and then the search
  moves on by one byte.)
\<close>

fun split_on :: "'a \<Rightarrow> 'a list \<Rightarrow> 'a list list" where
  "split_on d [] = [[]]"
| "split_on d (x # xs) =
     (if x = d then [] # split_on d xs
      else (case split_on d xs of
              ys # yss \<Rightarrow> (x # ys) # yss
            | [] \<Rightarrow> [[x]]))"

definition alternatives :: "bytes \<Rightarrow> bytes list" where
  "alternatives pattern = split_on 0x7C pattern"

fun is_prefix :: "'a list \<Rightarrow> 'a list \<Rightarrow> bool" where
  "is_prefix [] ys = True"
| "is_prefix (x # xs) [] = False"
| "is_prefix (x # xs) (y # ys) = (x = y \<and> is_prefix xs ys)"

definition first_match :: "bytes list \<Rightarrow> bool \<Rightarrow> bytes \<Rightarrow> bytes option" where
  "first_match alts must_advance data =
     find (\<lambda>a. is_prefix a data \<and> \<not> (must_advance \<and> a = [])) alts"

function finditer_from :: "bytes list \<Rightarrow> nat \<Rightarrow> bool \<Rightarrow> bytes \<Rightarrow> (nat \<times> nat) list" where
  "finditer_from alts p must_advance data =
     (case first_match alts must_advance data of
        Some a \<Rightarrow>
          (p, p + length a) #
            (if a = [] then finditer_from alts p True data
             else finditer_from alts (p + length a) False (drop (length a) data))
      | None \<Rightarrow>
          (case data of
             [] \<Rightarrow> []
           | _ # rest \<Rightarrow> finditer_from alts (p + 1) False rest))"
  by pat_completeness auto


lemma first_match_SomeD:
  "first_match alts m data = Some a \<Longrightarrow> is_prefix a data \<and> \<not> (m \<and> a = [])"
  unfolding first_match_def by (auto simp: find_Some_iff)

lemma is_prefix_length: "is_prefix xs ys \<Longrightarrow> length xs \<le> length ys"
  by (induction xs ys rule: is_prefix.induct) auto

termination finditer_from
proof (relation "measure (\<lambda>(alts, p, m, data). 2 * length data + (if m then 0 else 1))", goal_cases)
  case 1
  show ?case by simp
next
  case (2 alts p m data x rest)
  then show ?case by simp
next
  case (3 alts p m data a)
  from 3(1) have "\<not> (m \<and> a = [])" by (rule first_match_SomeD [THEN conjunct2])
  with 3(2) show ?case by simp
next
  case (4 alts p m data a)
  from 4(1) have "is_prefix a data" by (rule first_match_SomeD [THEN conjunct1])
  then have "length a \<le> length data" by (rule is_prefix_length)
  with 4(2) show ?case by (cases a) auto
qed

declare finditer_from.simps [simp del]

definition finditer_literal :: "bytes \<Rightarrow> bytes \<Rightarrow> (nat \<times> nat) list" where
  "finditer_literal pattern data = finditer_from (alternatives pattern) 0 False data"

text \<open>
  A pattern is an alternation of literals when none of its bytes is special in a regular
  expression (one of \<^verbatim>\<open>. ^ $ * + ? { } [ ] ( )\<close> or the backslash; the bar is the
  separator) and none of its alternatives is empty.
\<close>

definition regex_special :: bytes where
  "regex_special =
     [0x2E, 0x5E, 0x24, 0x2A, 0x2B, 0x3F, 0x7B, 0x7D, 0x5B, 0x5D, 0x5C, 0x28, 0x29]"

definition literal_pattern :: "bytes \<Rightarrow> bool" where
  "literal_pattern pattern \<longleftrightarrow>
     list_all (\<lambda>b. b \<notin> set regex_special) pattern \<and> [] \<notin> set (alternatives pattern)"

text \<open>
  \<^verbatim>\<open>re.finditer(pattern, data, re.M | re.S)\<close>, line 146: the list of the \<open>(start, end)\<close> of the
  matches, or the exception of \<^verbatim>\<open>re\<close> (\<^verbatim>\<open>re.error\<close> when the pattern does not compile). On an
  alternation of literals the search is the one written out above, and the two flags
  change nothing. Every other pattern is left to the parameter \<open>engine\<close>, which stands for
  the regular expression library as a function of the pattern and the data.
\<close>

type_synonym regex_engine = "bytes \<Rightarrow> bytes \<Rightarrow> py_exn + (nat \<times> nat) list"

definition finditer :: "regex_engine \<Rightarrow> bytes \<Rightarrow> bytes \<Rightarrow> py_exn + (nat \<times> nat) list" where
  "finditer engine pattern data =
     (if literal_pattern pattern then Inr (finditer_literal pattern data)
      else engine pattern data)"

text \<open>
  Lines 140 to 147: \<^verbatim>\<open>content.read()\<close> takes everything from the position of the stream to
  its end, once, when the generator starts; the matches are offsets into these bytes.
  Nothing catches what \<^verbatim>\<open>re.finditer\<close> raises.
\<close>

definition carve :: "regex_engine \<Rightarrow> bytes \<Rightarrow> (nat \<times> nat) list io" where
  "carve engine pattern =
     bind_io (read (- 1)) (\<lambda>data.
     lift_io (finditer engine pattern data))"

subsection \<open>\<^verbatim>\<open>PeCarve.scan\<close>\<close>

text \<open>\<^verbatim>\<open>Error(error=err, plugin_name=..., payload_id=...)\<close> and \<^verbatim>\<open>WorkerResponse\<close>.\<close>

record Error =
  error :: string
  plugin_name :: string
  payload_id :: string

record WorkerResponse =
  extracted :: "ExtractedPayload list"
  errors :: "Error list"

text \<open>
  Lines 53 to 55: the scanner as \<^verbatim>\<open>scan\<close> runs it, on the stream \<^verbatim>\<open>scan\<close> has just built over
  the bytes of the payload: rewind, then \<^verbatim>\<open>_carve\<close>.
\<close>

definition scanner :: "regex_engine \<Rightarrow> bytes \<Rightarrow> (nat \<times> nat) list io" where
  "scanner engine pattern = bind_io (seek 0) (\<lambda>_. carve engine pattern)"

text \<open>
  Lines 55 to 66, the loop over the matches: each candidate is given to \<^verbatim>\<open>decompress\<close> on
  the same stream; a truthy result is appended to \<^verbatim>\<open>extracted\<close>, and every message becomes
  an \<^verbatim>\<open>Error\<close> appended to \<^verbatim>\<open>errors\<close>.
\<close>

definition collect ::
  "string \<Rightarrow> string \<Rightarrow> ExtractedPayload list \<times> Error list \<Rightarrow> outcome \<Rightarrow>
     ExtractedPayload list \<times> Error list" where
  "collect name pid acc r =
     (case acc of (ext, errs) \<Rightarrow>
        (case r of (ex, msgs) \<Rightarrow>
           ((case ex of Extracted p \<Rightarrow> ext @ [p] | _ \<Rightarrow> ext),
            errs @ map (\<lambda>err. \<lparr>error = err, plugin_name = name, payload_id = pid\<rparr>) msgs)))"

fun scan_loop ::
  "codec \<Rightarrow> codec \<Rightarrow> string \<Rightarrow> string \<Rightarrow> (nat \<times> nat) list \<Rightarrow>
     ExtractedPayload list \<times> Error list \<Rightarrow> (ExtractedPayload list \<times> Error list) io" where
  "scan_loop lzma zlib name pid [] acc = return_io acc"
| "scan_loop lzma zlib name pid (m # ms) acc =
     bind_io (decompress lzma zlib (int (fst m))) (\<lambda>r.
     scan_loop lzma zlib name pid ms (collect name pid acc r))"

text \<open>
  Lines 45 to 67: \<^verbatim>\<open>scan\<close> on the bytes of a payload. The result is the \<^verbatim>\<open>WorkerResponse\<close>, or
  the exception \<^verbatim>\<open>scan\<close> lets through (the one of \<^verbatim>\<open>re.finditer\<close>, which is raised outside
  every \<^verbatim>\<open>try\<close>), and the stream as the scan leaves it.
\<close>

definition scan_body ::
  "regex_engine \<Rightarrow> codec \<Rightarrow> codec \<Rightarrow> bytes \<Rightarrow> string \<Rightarrow> string \<Rightarrow> WorkerResponse io" where
  "scan_body engine lzma zlib pattern name pid =
     bind_io (scanner engine pattern) (\<lambda>ms.
     bind_io (scan_loop lzma zlib name pid ms ([], [])) (\<lambda>acc.
     return_io \<lparr>extracted = fst acc, errors = snd acc\<rparr>))"

definition scan ::
  "regex_engine \<Rightarrow> codec \<Rightarrow> codec \<Rightarrow> bytes \<Rightarrow> string \<Rightarrow> string \<Rightarrow> bytes \<Rightarrow>
     (py_exn + WorkerResponse) \<times> BytesIO" where
  "scan engine lzma zlib pattern name pid payload_content =
     scan_body engine lzma zlib pattern name pid (BytesIO_new payload_content)"

subsection \<open>A sample codec\<close>

text \<open>
  The theorems below hold for every pair of decompression functions. To run the model on
  concrete payloads, \<open>rle_codec\<close> stands for a library: its input is a sequence of pairs of
  a count and a byte, and it returns each byte repeated count times; on an input of odd
  length it raises.
\<close>

fun rle_codec :: codec where
  "rle_codec [] = Inr []"
| "rle_codec [n] = Inl LibraryError"
| "rle_codec (n # b # rest) =
     (case rle_codec rest of
        Inl e \<Rightarrow> Inl e
      | Inr out \<Rightarrow> Inr (replicate (unat n) b @ out))"

text \<open>
  In the same way \<open>strict_engine\<close> stands for the regular expression library on the
  patterns that are not alternations of literals: it raises on every one of them.
\<close>

definition strict_engine :: regex_engine where
  "strict_engine pattern data = Inl ReError"

section \<open>Properties of the stream operations\<close>

lemmas io_defs = bind_io_def return_io_def lift_io_def except_io_def seek_def read_def

lemma seek_nonneg: "0 \<le> p \<Longrightarrow> seek p s = (Inr (), s\<lparr>pos := nat p\<rparr>)"
  by (simp add: seek_def)

lemma read_at:
  "0 \<le> n \<Longrightarrow> pos s + nat n \<le> length (buf s) \<Longrightarrow>
   read n s = (Inr (take (nat n) (drop (pos s) (buf s))), s\<lparr>pos := pos s + nat n\<rparr>)"
  by (simp add: read_def peek_def Let_def)

lemma read_header_ok:
  assumes off: "0 \<le> offset" and len: "nat offset + 8 \<le> length (buf s)"
    and utf: "utf8_valid (take 3 (drop (nat offset) (buf s)))"
  shows "read_header offset s =
           (Inr (take 3 (drop (nat offset) (buf s)),
                 sint (buf s ! (nat offset + 3)),
                 le_i32 (take 4 (drop (nat offset + 4) (buf s))) - 8,
                 bFWS @ take 5 (drop (nat offset + 3) (buf s))),
            s\<lparr>pos := nat offset + 8\<rparr>)"
proof -
  let ?o = "nat offset" and ?b = "buf s"
  have s0: "seek offset s = (Inr (), s\<lparr>pos := ?o\<rparr>)"
    using off by (rule seek_nonneg)
  have r3: "read 3 (s\<lparr>pos := ?o\<rparr>) = (Inr (take 3 (drop ?o ?b)), s\<lparr>pos := ?o + 3\<rparr>)"
    using len read_at [of 3 "s\<lparr>pos := ?o\<rparr>"] by simp
  have d3: "decode (take 3 (drop ?o ?b)) = Inr (take 3 (drop ?o ?b))"
    using utf by (simp add: decode_def)
  have r1: "read 1 (s\<lparr>pos := ?o + 3\<rparr>) = (Inr (take 1 (drop (?o + 3) ?b)), s\<lparr>pos := ?o + 4\<rparr>)"
    using len read_at [of 1 "s\<lparr>pos := ?o + 3\<rparr>"] by simp
  have t1: "take 1 (drop (?o + 3) ?b) = [?b ! (?o + 3)]"
    using len by (simp add: take_Suc_conv_app_nth)
  have u1: "unpack_b (take (Suc 0) (drop (?o + 3) ?b)) = Inr (sint (?b ! (?o + 3)))"
    using t1 by (simp add: unpack_b_def)
  have r4: "read 4 (s\<lparr>pos := ?o + 4\<rparr>) = (Inr (take 4 (drop (?o + 4) ?b)), s\<lparr>pos := ?o + 8\<rparr>)"
    using len read_at [of 4 "s\<lparr>pos := ?o + 4\<rparr>"] by simp
  have u4: "unpack_i (take 4 (drop (?o + 4) ?b)) = Inr (le_i32 (take 4 (drop (?o + 4) ?b)))"
    using len by (simp add: unpack_i_def)
  have s3: "seek (offset + 3) (s\<lparr>pos := ?o + 8\<rparr>) = (Inr (), s\<lparr>pos := ?o + 3\<rparr>)"
    using off seek_nonneg [of "offset + 3" "s\<lparr>pos := ?o + 8\<rparr>"] by (simp add: nat_add_distrib)
  have r5: "read 5 (s\<lparr>pos := ?o + 3\<rparr>) = (Inr (take 5 (drop (?o + 3) ?b)), s\<lparr>pos := ?o + 8\<rparr>)"
    using len read_at [of 5 "s\<lparr>pos := ?o + 3\<rparr>"] by simp
  show ?thesis
    by (simp add: read_header_def bind_io_def lift_io_def return_io_def s0 r3 d3 r1 u1 r4 u4 s3 r5)
qed


lemma bind_io_InrD:
  "bind_io m f s = (Inr b, s2) \<Longrightarrow> \<exists>a s1. m s = (Inr a, s1) \<and> f a s1 = (Inr b, s2)"
  by (cases "m s") (auto simp: bind_io_def split: sum.splits)

lemma seek_InrD: "seek p s = (Inr u, s1) \<Longrightarrow> 0 \<le> p \<and> s1 = s\<lparr>pos := nat p\<rparr>"
  by (auto simp: seek_def split: if_splits)

lemma read_InrD:
  "read n s = (Inr d, s1) \<Longrightarrow> d = peek n s \<and> s1 = s\<lparr>pos := pos s + length d\<rparr>"
  by (auto simp: read_def Let_def)

lemma lift_io_InrD: "lift_io r s = (Inr a, s1) \<Longrightarrow> r = Inr a \<and> s1 = s"
  by (auto simp: lift_io_def)

lemma read_header_length:
  assumes "read_header offset s = (Inr h, s1)"
  shows "0 \<le> offset \<and> nat offset + 8 \<le> length (buf s) \<and>
         utf8_valid (take 3 (drop (nat offset) (buf s)))"
proof -
  from assms obtain u sa where a: "seek offset s = (Inr u, sa)"
    and 1: "bind_io (read 3) (\<lambda>raw.
     bind_io (lift_io (decode raw)) (\<lambda>magic.
     bind_io (read 1) (\<lambda>vb.
     bind_io (lift_io (unpack_b vb)) (\<lambda>swf_version.
     bind_io (read 4) (\<lambda>lb.
     bind_io (lift_io (unpack_i lb)) (\<lambda>declared.
     bind_io (seek (offset + 3)) (\<lambda>_.
     bind_io (read 5) (\<lambda>rest.
     return_io (magic, swf_version, declared - 8, bFWS @ rest))))))))) sa = (Inr h, s1)"
    unfolding read_header_def by (blast dest: bind_io_InrD)
  from a have off: "0 \<le> offset" and sa: "sa = s\<lparr>pos := nat offset\<rparr>"
    by (auto dest: seek_InrD)
  from 1 obtain raw sb where b: "read 3 sa = (Inr raw, sb)"
    and 2: "bind_io (lift_io (decode raw)) (\<lambda>magic.
     bind_io (read 1) (\<lambda>vb.
     bind_io (lift_io (unpack_b vb)) (\<lambda>swf_version.
     bind_io (read 4) (\<lambda>lb.
     bind_io (lift_io (unpack_i lb)) (\<lambda>declared.
     bind_io (seek (offset + 3)) (\<lambda>_.
     bind_io (read 5) (\<lambda>rest.
     return_io (magic, swf_version, declared - 8, bFWS @ rest)))))))) sb = (Inr h, s1)"
    by (blast dest: bind_io_InrD)
  from b sa have raw: "raw = take 3 (drop (nat offset) (buf s))"
    and sb: "buf sb = buf s" "pos sb = nat offset + length raw"
    by (auto dest!: read_InrD simp: peek_def)
  from 2 obtain magic sb' where c: "lift_io (decode raw) sb = (Inr magic, sb')"
    and 3: "bind_io (read 1) (\<lambda>vb.
     bind_io (lift_io (unpack_b vb)) (\<lambda>swf_version.
     bind_io (read 4) (\<lambda>lb.
     bind_io (lift_io (unpack_i lb)) (\<lambda>declared.
     bind_io (seek (offset + 3)) (\<lambda>_.
     bind_io (read 5) (\<lambda>rest.
     return_io (magic, swf_version, declared - 8, bFWS @ rest))))))) sb' = (Inr h, s1)"
    by (blast dest: bind_io_InrD)
  from c have utf: "utf8_valid raw" and sb': "sb' = sb"
    by (auto dest!: lift_io_InrD simp: decode_def split: if_splits)
  from 3 obtain vb sc where d: "read 1 sb' = (Inr vb, sc)"
    and 4: "bind_io (lift_io (unpack_b vb)) (\<lambda>swf_version.
     bind_io (read 4) (\<lambda>lb.
     bind_io (lift_io (unpack_i lb)) (\<lambda>declared.
     bind_io (seek (offset + 3)) (\<lambda>_.
     bind_io (read 5) (\<lambda>rest.
     return_io (magic, swf_version, declared - 8, bFWS @ rest)))))) sc = (Inr h, s1)"
    by (blast dest: bind_io_InrD)
  from d sb' sb have vb: "vb = take 1 (drop (pos sb) (buf s))"
    and sc: "buf sc = buf s" "pos sc = pos sb + length vb"
    by (auto dest!: read_InrD simp: peek_def)
  from 4 obtain ver sc' where e: "lift_io (unpack_b vb) sc = (Inr ver, sc')"
    and 5: "bind_io (read 4) (\<lambda>lb.
     bind_io (lift_io (unpack_i lb)) (\<lambda>declared.
     bind_io (seek (offset + 3)) (\<lambda>_.
     bind_io (read 5) (\<lambda>rest.
     return_io (magic, ver, declared - 8, bFWS @ rest))))) sc' = (Inr h, s1)"
    by (blast dest: bind_io_InrD)
  from e have lvb: "length vb = 1" and sc': "sc' = sc"
    by (auto dest!: lift_io_InrD simp: unpack_b_def split: if_splits)
  from 5 obtain lb sd where f: "read 4 sc' = (Inr lb, sd)"
    and 6: "bind_io (lift_io (unpack_i lb)) (\<lambda>declared.
     bind_io (seek (offset + 3)) (\<lambda>_.
     bind_io (read 5) (\<lambda>rest.
     return_io (magic, ver, declared - 8, bFWS @ rest)))) sd = (Inr h, s1)"
    by (blast dest: bind_io_InrD)
  from f sc' sc have lb: "lb = take 4 (drop (pos sc) (buf s))"
    by (auto dest!: read_InrD simp: peek_def)
  from 6 obtain declared sd' where g: "lift_io (unpack_i lb) sd = (Inr declared, sd')"
    by (blast dest: bind_io_InrD)
  from g have llb: "length lb = 4"
    by (auto dest!: lift_io_InrD simp: unpack_i_def split: if_splits)
  have p1: "pos sb < length (buf s)" using lvb vb by (cases "pos sb < length (buf s)") auto
  have l3: "length raw = 3" using p1 sb(2) raw by (simp add: min_def split: if_splits)
  have "pos sc + 4 \<le> length (buf s)" using llb lb by (simp add: min_def split: if_splits)
  then have "nat offset + 8 \<le> length (buf s)" using sc(2) sb(2) lvb l3 by simp
  with off utf raw show ?thesis by simp
qed


lemma read_header_InrD:
  assumes "read_header offset s = (Inr (magic, ver, dsize, hdr), s1)"
  shows "0 \<le> offset \<and> nat offset + 8 \<le> length (buf s) \<and> utf8_valid magic \<and>
         magic = take 3 (drop (nat offset) (buf s)) \<and>
         ver = sint (buf s ! (nat offset + 3)) \<and>
         dsize = le_i32 (take 4 (drop (nat offset + 4) (buf s))) - 8 \<and>
         hdr = bFWS @ take 5 (drop (nat offset + 3) (buf s)) \<and>
         s1 = s\<lparr>pos := nat offset + 8\<rparr>"
proof -
  from read_header_length [OF assms]
  have a: "0 \<le> offset" and b: "nat offset + 8 \<le> length (buf s)"
    and c: "utf8_valid (take 3 (drop (nat offset) (buf s)))" by simp_all
  from read_header_ok [OF a b c] assms a b c show ?thesis by simp
qed

lemma read_header_fails:
  assumes "offset < 0 \<or> length (buf s) < nat offset + 8 \<or>
           \<not> utf8_valid (take 3 (drop (nat offset) (buf s)))"
  shows "\<exists>e. fst (read_header offset s) = Inl e"
proof (cases "read_header offset s")
  case (Pair r s1)
  show ?thesis
  proof (cases r)
    case (Inl e)
    with Pair show ?thesis by simp
  next
    case (Inr h)
    with Pair have "read_header offset s = (Inr h, s1)" by simp
    from read_header_length [OF this] assms show ?thesis by auto
  qed
qed

lemma try_dispatch_ZWS:
  "try_dispatch lz zl bZWS dsize s =
     (case lz (peek dsize (s\<lparr>pos := 12\<rparr>)) of Inl e \<Rightarrow> Inr None | Inr r \<Rightarrow> Inr (Some r),
      s\<lparr>pos := 12 + length (peek dsize (s\<lparr>pos := 12\<rparr>))\<rparr>)"
  by (cases "lz (peek dsize (s\<lparr>pos := 12\<rparr>))")
     (simp_all add: try_dispatch_def dispatch_def io_defs Let_def)

lemma try_dispatch_CWS:
  "try_dispatch lz zl bCWS dsize s =
     (case zl (peek dsize s) of Inl e \<Rightarrow> Inr None | Inr r \<Rightarrow> Inr (Some r),
      s\<lparr>pos := pos s + length (peek dsize s)\<rparr>)"
  by (cases "zl (peek dsize s)")
     (simp_all add: try_dispatch_def dispatch_def io_defs Let_def bCWS_def bZWS_def)

lemma try_dispatch_FWS:
  "try_dispatch lz zl bFWS dsize s =
     (Inr (Some (peek dsize s)), s\<lparr>pos := pos s + length (peek dsize s)\<rparr>)"
  by (simp add: try_dispatch_def dispatch_def io_defs Let_def bCWS_def bZWS_def bFWS_def)

lemma try_dispatch_other:
  "magic \<noteq> bZWS \<Longrightarrow> magic \<noteq> bCWS \<Longrightarrow> magic \<noteq> bFWS \<Longrightarrow>
   try_dispatch lz zl magic dsize s = (Inr None, s)"
  by (simp add: try_dispatch_def dispatch_def io_defs)

lemma decompress_body_raises:
  "decompress_body lz zl offset s = (Inl e, s1) \<Longrightarrow>
   decompress lz zl offset s = (Inr (EmptyList, [unable_msg offset]), s1)"
  by (simp add: decompress_def except_io_def return_io_def)

lemma decompress_body_returns:
  "decompress_body lz zl offset s = (Inr r, s1) \<Longrightarrow>
   decompress lz zl offset s = (Inr r, s1)"
  by (simp add: decompress_def except_io_def)

lemma decompress_body_header_fails:
  "read_header offset s = (Inl e, s1) \<Longrightarrow> decompress_body lz zl offset s = (Inl e, s1)"
  by (simp add: decompress_body_def bind_io_def)

lemma decompress_body_header_ok:
  "read_header offset s = (Inr (magic, ver, dsize, hdr), s1) \<Longrightarrow>
   try_dispatch lz zl magic dsize s1 = (Inr r, s2) \<Longrightarrow>
   decompress_body lz zl offset s = (Inr (assemble offset ver dsize hdr r), s2)"
  by (simp add: decompress_body_def bind_io_def return_io_def)

lemma decompress_header_fails:
  assumes "fst (read_header offset s) = Inl e"
  shows "decompress lz zl offset s =
           (Inr (EmptyList, [unable_msg offset]), snd (read_header offset s))"
proof -
  from assms have "read_header offset s = (Inl e, snd (read_header offset s))"
    by (cases "read_header offset s") simp
  then show ?thesis
    by (intro decompress_body_raises decompress_body_header_fails)
qed

lemma decompress_header_ok:
  "read_header offset s = (Inr (magic, ver, dsize, hdr), s1) \<Longrightarrow>
   try_dispatch lz zl magic dsize s1 = (Inr r, s2) \<Longrightarrow>
   decompress lz zl offset s = (Inr (assemble offset ver dsize hdr r), s2)"
  by (intro decompress_body_returns decompress_body_header_ok)

lemma try_dispatch_returns:
  "\<exists>r s2. try_dispatch lz zl magic dsize s1 = (Inr r, s2) \<and> buf s2 = buf s1"
proof -
  consider "magic = bZWS" | "magic = bCWS" | "magic = bFWS"
    | "magic \<noteq> bZWS" "magic \<noteq> bCWS" "magic \<noteq> bFWS" by blast
  then show ?thesis
  proof cases
    case 1
    then show ?thesis
      by (cases "lz (peek dsize (s1\<lparr>pos := 12\<rparr>))") (simp_all add: try_dispatch_ZWS)
  next
    case 2
    then show ?thesis
      by (cases "zl (peek dsize s1)") (simp_all add: try_dispatch_CWS)
  next
    case 3
    then show ?thesis by (simp add: try_dispatch_FWS)
  next
    case 4
    then show ?thesis by (simp add: try_dispatch_other)
  qed
qed

lemma buf_read_header: "buf (snd (read_header offset s)) = buf s"
  by (simp add: read_header_def io_defs Let_def decode_def unpack_b_def unpack_i_def
      split: sum.splits prod.splits)

text \<open>\<^verbatim>\<open>decompress\<close> always returns, and leaves the bytes of the stream as they were.\<close>

lemma decompress_returns:
  "\<exists>r s1. decompress lz zl offset s = (Inr r, s1) \<and> buf s1 = buf s"
proof (cases "read_header offset s")
  case (Pair h s1)
  have b1: "buf s1 = buf s" using buf_read_header [of offset s] Pair by simp
  show ?thesis
  proof (cases h)
    case (Inl e)
    with Pair have "fst (read_header offset s) = Inl e" by simp
    from decompress_header_fails [OF this] Pair b1 show ?thesis by simp
  next
    case (Inr t)
    obtain magic ver dsize hdr where t: "t = (magic, ver, dsize, hdr)" by (cases t) auto
    obtain r2 s2 where d: "try_dispatch lz zl magic dsize s1 = (Inr r2, s2)"
      and "buf s2 = buf s1"
      using try_dispatch_returns by blast
    with b1 decompress_header_ok [OF Pair [unfolded Inr t] d] show ?thesis by simp
  qed
qed

lemma scan_loop_returns:
  "\<exists>r s1. scan_loop lz zl name pid ms acc s = (Inr r, s1) \<and> buf s1 = buf s"
proof (induction ms arbitrary: acc s)
  case Nil
  show ?case by (simp add: return_io_def)
next
  case (Cons m ms)
  obtain r s1 where d: "decompress lz zl (int (fst m)) s = (Inr r, s1)" and b: "buf s1 = buf s"
    using decompress_returns by blast
  from Cons [of "collect name pid acc r" s1] d b show ?case
    by (simp add: bind_io_def)
qed

lemma carve_eq:
  "carve engine pattern s =
     (finditer engine pattern (drop (pos s) (buf s)),
      s\<lparr>pos := pos s + (length (buf s) - pos s)\<rparr>)"
  by (cases "finditer engine pattern (drop (pos s) (buf s))")
     (simp_all add: carve_def bind_io_def lift_io_def read_def peek_def Let_def)

lemma scanner_eq:
  "scanner engine pattern s = (finditer engine pattern (buf s), s\<lparr>pos := length (buf s)\<rparr>)"
  by (simp add: scanner_def bind_io_def seek_def carve_eq)

text \<open>
  \<^verbatim>\<open>scan\<close> leaves the bytes of its stream as they were, and it returns whenever the search
  returns: the loop over the candidates raises nothing.
\<close>

lemma scan_eq:
  "scan engine lz zl pattern name pid b =
     (case finditer engine pattern b of
        Inl e \<Rightarrow> (Inl e, \<lparr>buf = b, pos = length b\<rparr>)
      | Inr ms \<Rightarrow>
          (case scan_loop lz zl name pid ms ([], []) \<lparr>buf = b, pos = length b\<rparr> of
             (Inl e, s1) \<Rightarrow> (Inl e, s1)
           | (Inr acc, s1) \<Rightarrow> (Inr \<lparr>extracted = fst acc, errors = snd acc\<rparr>, s1)))"
  by (cases "finditer engine pattern b")
     (simp_all add: scan_def scan_body_def bind_io_def return_io_def scanner_eq BytesIO_new_def
        split: sum.splits prod.splits)

lemma scan_buf: "buf (snd (scan engine lz zl pattern name pid b)) = b"
proof (cases "finditer engine pattern b")
  case (Inl e)
  then show ?thesis by (simp add: scan_eq)
next
  case (Inr ms)
  obtain acc s1 where "scan_loop lz zl name pid ms ([], []) \<lparr>buf = b, pos = length b\<rparr> = (Inr acc, s1)"
    and "buf s1 = buf \<lparr>buf = b, pos = length b\<rparr>"
    using scan_loop_returns by blast
  with Inr show ?thesis by (simp add: scan_eq)
qed

lemma scan_returns:
  assumes "finditer engine pattern b = Inr ms"
  shows "\<exists>r s1. scan engine lz zl pattern name pid b = (Inr r, s1) \<and> buf s1 = b"
proof -
  obtain acc s1 where "scan_loop lz zl name pid ms ([], []) \<lparr>buf = b, pos = length b\<rparr> = (Inr acc, s1)"
    and "buf s1 = buf \<lparr>buf = b, pos = length b\<rparr>"
    using scan_loop_returns by blast
  with assms show ?thesis by (simp add: scan_eq)
qed

section \<open>The claims\<close>

subsection \<open>C1: the default signature set\<close>

lemma default_alternatives: "alternatives (swf_headers None) = [bSWF, bCWS, bFWS]"
  by (simp add: alternatives_def swf_headers_def swf_headers_fallback_def encode_def
      bSWF_def bCWS_def bFWS_def)

lemma default_pattern_literal: "literal_pattern (swf_headers None)"
  unfolding literal_pattern_def default_alternatives
  by (simp add: swf_headers_def swf_headers_fallback_def encode_def regex_special_def
      bSWF_def bCWS_def bFWS_def)

text \<open>
  C1 says that every default signature is the magic of a variant the dispatch handles
  (\<^verbatim>\<open>FWS\<close>, \<^verbatim>\<open>CWS\<close>, \<^verbatim>\<open>ZWS\<close>). The fallback pattern of line 42 is \<^verbatim>\<open>'SWF|CWS|FWS'\<close>: its first
  signature \<^verbatim>\<open>SWF\<close> is none of the three magics of the dispatch, which answers it with
  \<^verbatim>\<open>return None, errors\<close>, and \<^verbatim>\<open>ZWS\<close>, which the dispatch handles and the comment of line 93
  names, is not among the defaults, so an LZMA object is never matched under the default
  configuration.
\<close>

theorem default_signatures_not_the_dispatched_magics:
  "alternatives (swf_headers None) = [bSWF, bCWS, bFWS]
   \<and> bSWF \<in> set (alternatives (swf_headers None))
   \<and> bSWF \<noteq> bFWS \<and> bSWF \<noteq> bCWS \<and> bSWF \<noteq> bZWS
   \<and> dispatch lz zl bSWF n s = (Inr None, s)
   \<and> bZWS \<notin> set (alternatives (swf_headers None))
   \<and> finditer_literal (swf_headers None) (bZWS @ [13, 10, 0, 0, 0, 1, 2, 3, 4, 7, 8]) = []
   \<and> finditer engine (swf_headers None) (bZWS @ [13, 10, 0, 0, 0, 1, 2, 3, 4, 7, 8]) = Inr []"
proof -
  have a: "alternatives (swf_headers None) = [bSWF, bCWS, bFWS]"
    by (rule default_alternatives)
  have b: "bSWF \<noteq> bFWS \<and> bSWF \<noteq> bCWS \<and> bSWF \<noteq> bZWS"
    by (simp add: bSWF_def bFWS_def bCWS_def bZWS_def)
  have c: "dispatch lz zl bSWF n s = (Inr None, s)"
    using b by (simp add: dispatch_def return_io_def)
  have d: "bZWS \<notin> set [bSWF, bCWS, bFWS]"
    by (simp add: bSWF_def bFWS_def bCWS_def bZWS_def)
  have e: "finditer_literal (swf_headers None) (bZWS @ [13, 10, 0, 0, 0, 1, 2, 3, 4, 7, 8]) = []"
    unfolding finditer_literal_def a
    by (simp add: finditer_from.simps first_match_def bSWF_def bFWS_def bCWS_def bZWS_def)
  have f: "finditer engine (swf_headers None) (bZWS @ [13, 10, 0, 0, 0, 1, 2, 3, 4, 7, 8]) = Inr []"
    using e default_pattern_literal by (simp add: finditer_def)
  from a b c d e f show ?thesis by simp
qed

subsection \<open>C3: the size check\<close>

text \<open>
  C3 says that a size mismatch yields no object and a failure reason that includes both
  lengths. On an \<^verbatim>\<open>FWS\<close> candidate that declares 20 bytes and has a body of 3, where 12 are
  expected, no object is produced, but the reason is the literal text of line 128: the
  string has no \<^verbatim>\<open>f\<close> prefix, so neither 3 nor 12 appears in it.
\<close>

theorem size_mismatch_message_has_no_lengths:
  "decompress lz zl 0 (BytesIO_new (bFWS @ [9, 20, 0, 0, 0, 1, 2, 3])) =
     (Inr (EmptyList,
           [''Invalid size of carved SWF content: {len(content)} != {decompressed_size}'']),
      \<lparr>buf = bFWS @ [9, 20, 0, 0, 0, 1, 2, 3], pos = 11\<rparr>)"
proof -
  let ?s = "BytesIO_new (bFWS @ [9, 20, 0, 0, 0, 1, 2, 3])"
  have h: "read_header 0 ?s = (Inr (bFWS, 9, 12, bFWS @ [9, 20, 0, 0, 0]), ?s\<lparr>pos := 8\<rparr>)"
    using read_header_ok [of 0 ?s]
    by (simp add: BytesIO_new_def bFWS_def le_i32_def le_u32_def)
  have d: "try_dispatch lz zl bFWS 12 (?s\<lparr>pos := 8\<rparr>) = (Inr (Some [1, 2, 3]), ?s\<lparr>pos := 11\<rparr>)"
    unfolding try_dispatch_FWS by (simp add: peek_def BytesIO_new_def bFWS_def)
  from decompress_header_ok [OF h d] show ?thesis
    by (simp add: assemble_def invalid_size_msg_def BytesIO_new_def)
qed

subsection \<open>C7: truncated headers and other faults\<close>

lemma collect_nothing: "collect name pid acc (NoneValue, []) = acc"
  by (cases acc) (simp add: collect_def)

lemma collect_failure:
  "collect name pid (ext, errs) (EmptyList, [msg]) =
     (ext, errs @ [\<lparr>error = msg, plugin_name = name, payload_id = pid\<rparr>])"
  by (simp add: collect_def)

lemma scan_loop_step:
  "decompress lz zl (int (fst m)) s = (Inr r, s1) \<Longrightarrow>
   scan_loop lz zl name pid (m # ms) acc s = scan_loop lz zl name pid ms (collect name pid acc r) s1"
  by (simp add: bind_io_def)

lemma unable_msg_0: "unable_msg 0 = ''Unable to decompress SWF payload at offset 0''"
  by (simp add: unable_msg_def str_int_def str_nat.simps digit_char_def)

text \<open>
  The body of the outer \<^verbatim>\<open>try\<close> raises exactly when the header cannot be read: whatever is
  raised later, in lines 107 to 124, is caught by the inner \<^verbatim>\<open>except\<close>.
\<close>

lemma decompress_body_raises_iff:
  "decompress_body lz zl offset s = (Inl e, s1) \<longleftrightarrow> read_header offset s = (Inl e, s1)"
proof
  assume "read_header offset s = (Inl e, s1)"
  then show "decompress_body lz zl offset s = (Inl e, s1)"
    by (rule decompress_body_header_fails)
next
  assume b: "decompress_body lz zl offset s = (Inl e, s1)"
  show "read_header offset s = (Inl e, s1)"
  proof (cases "read_header offset s")
    case (Pair h s')
    show ?thesis
    proof (cases h)
      case (Inl e')
      with Pair b decompress_body_header_fails [of offset s e' s' lz zl] show ?thesis by simp
    next
      case (Inr t)
      obtain magic ver dsize hdr where t: "t = (magic, ver, dsize, hdr)" by (cases t) auto
      obtain r s2 where d: "try_dispatch lz zl magic dsize s' = (Inr r, s2)"
        using try_dispatch_returns by blast
      from decompress_body_header_ok [OF Pair [unfolded Inr t] d] b show ?thesis by simp
    qed
  qed
qed

lemma zws_raising_header:
  "read_header 0 (BytesIO_new (bZWS @ [13, 9, 0, 0, 0, 1, 2, 3, 4, 5])) =
     (Inr (bZWS, 13, 1, bFWS @ [13, 9, 0, 0, 0]),
      BytesIO_new (bZWS @ [13, 9, 0, 0, 0, 1, 2, 3, 4, 5])\<lparr>pos := 8\<rparr>)"
  using read_header_ok [of 0 "BytesIO_new (bZWS @ [13, 9, 0, 0, 0, 1, 2, 3, 4, 5])"]
  by (simp add: BytesIO_new_def bZWS_def le_i32_def le_u32_def)

text \<open>
  C7 as stated, refuted: the claim says that any unexpected fault during the processing of
  a candidate is caught at the candidate boundary and converted to a reported failure. On
  a \<^verbatim>\<open>ZWS\<close> candidate with a complete header, the dispatch of lines 108 to 122 raises (the
  library rejects the data read at byte 12), and \<^verbatim>\<open>decompress\<close> returns \<^verbatim>\<open>None\<close> and an empty
  list of reasons: the fault is caught by the inner \<^verbatim>\<open>except\<close> and nothing is reported.
\<close>

theorem fault_in_dispatch_is_not_reported:
  "read_header 0 (BytesIO_new (bZWS @ [13, 9, 0, 0, 0, 1, 2, 3, 4, 5])) =
     (Inr (bZWS, 13, 1, bFWS @ [13, 9, 0, 0, 0]),
      BytesIO_new (bZWS @ [13, 9, 0, 0, 0, 1, 2, 3, 4, 5])\<lparr>pos := 8\<rparr>)
   \<and> dispatch rle_codec rle_codec bZWS 1
        (BytesIO_new (bZWS @ [13, 9, 0, 0, 0, 1, 2, 3, 4, 5])\<lparr>pos := 8\<rparr>) =
       (Inl LibraryError, \<lparr>buf = bZWS @ [13, 9, 0, 0, 0, 1, 2, 3, 4, 5], pos = 13\<rparr>)
   \<and> decompress rle_codec rle_codec 0 (BytesIO_new (bZWS @ [13, 9, 0, 0, 0, 1, 2, 3, 4, 5])) =
       (Inr (NoneValue, []), \<lparr>buf = bZWS @ [13, 9, 0, 0, 0, 1, 2, 3, 4, 5], pos = 13\<rparr>)"
proof -
  let ?s = "BytesIO_new (bZWS @ [13, 9, 0, 0, 0, 1, 2, 3, 4, 5])"
  let ?s1 = "\<lparr>buf = bZWS @ [13, 9, 0, 0, 0, 1, 2, 3, 4, 5], pos = 13\<rparr>"
  have p: "peek 1 (?s\<lparr>pos := 8\<rparr>\<lparr>pos := 12\<rparr>) = [5]"
    by (simp add: peek_def BytesIO_new_def bZWS_def)
  have c: "rle_codec [5] = Inl LibraryError" by simp
  have r: "read 1 (?s\<lparr>pos := 12\<rparr>) = (Inr [5], ?s1)"
    by (simp add: read_def peek_def Let_def BytesIO_new_def bZWS_def)
  have k: "seek 12 (?s\<lparr>pos := 8\<rparr>) = (Inr (), ?s\<lparr>pos := 12\<rparr>)"
    by (simp add: seek_def)
  have d: "dispatch rle_codec rle_codec bZWS 1 (?s\<lparr>pos := 8\<rparr>) = (Inl LibraryError, ?s1)"
    by (simp add: dispatch_def bind_io_def lift_io_def k r c)
  have t: "try_dispatch rle_codec rle_codec bZWS 1 (?s\<lparr>pos := 8\<rparr>) = (Inr None, ?s1)"
    unfolding try_dispatch_ZWS p c by (simp add: BytesIO_new_def)
  from decompress_header_ok [OF zws_raising_header t] zws_raising_header d show ?thesis
    by (simp add: assemble_def)
qed

text \<open>
  C7 as amended: when fewer than 8 bytes follow the candidate offset, \<^verbatim>\<open>decompress\<close> returns no
  object and the failure \<^verbatim>\<open>Unable to decompress SWF payload at offset N\<close>, and raises nothing.
  More generally, any fault raised while the header is sought, read, decoded and unpacked
  (lines 92 to 104) becomes that reported failure, and the loop of \<^verbatim>\<open>scan\<close> records it and
  goes on with the remaining candidates. These are the only faults that reach the outer
  handler: the body of the outer \<^verbatim>\<open>try\<close> raises exactly when the header cannot be read.
  Whatever the fault, \<^verbatim>\<open>decompress\<close> returns and the loop over the candidates returns.
\<close>

theorem header_fault_is_reported_and_scan_goes_on:
  "(int (length (buf s)) < offset + 8 \<longrightarrow>
      fst (decompress lz zl offset s) = Inr (EmptyList, [unable_msg offset]))
   \<and> (\<forall>e s1. read_header offset s = (Inl e, s1) \<longrightarrow>
         decompress lz zl offset s = (Inr (EmptyList, [unable_msg offset]), s1))
   \<and> (\<forall>e s1. (decompress_body lz zl offset s = (Inl e, s1)) =
               (read_header offset s = (Inl e, s1)))
   \<and> (\<forall>e s1. read_header (int start) s = (Inl e, s1) \<longrightarrow>
         scan_loop lz zl name pid ((start, stop) # ms) (ext, errs) s =
         scan_loop lz zl name pid ms
           (ext, errs @ [\<lparr>error = unable_msg (int start), plugin_name = name, payload_id = pid\<rparr>])
           s1)
   \<and> (\<exists>r s1. decompress lz zl offset s = (Inr r, s1))
   \<and> (\<exists>r s1. scan_loop lz zl name pid cs acc s = (Inr r, s1))"
proof (intro conjI impI allI)
  assume "int (length (buf s)) < offset + 8"
  then have "offset < 0 \<or> length (buf s) < nat offset + 8" by linarith
  then obtain e where "fst (read_header offset s) = Inl e"
    using read_header_fails [of offset s] by blast
  from decompress_header_fails [OF this]
  show "fst (decompress lz zl offset s) = Inr (EmptyList, [unable_msg offset])" by simp
next
  fix e s1
  assume "read_header offset s = (Inl e, s1)"
  then show "decompress lz zl offset s = (Inr (EmptyList, [unable_msg offset]), s1)"
    by (intro decompress_body_raises decompress_body_header_fails)
next
  fix e s1
  show "(decompress_body lz zl offset s = (Inl e, s1)) = (read_header offset s = (Inl e, s1))"
    by (rule decompress_body_raises_iff)
next
  fix e s1
  assume "read_header (int start) s = (Inl e, s1)"
  then have "decompress lz zl (int (fst (start, stop))) s =
      (Inr (EmptyList, [unable_msg (int start)]), s1)"
    by (simp add: decompress_body_raises decompress_body_header_fails)
  from scan_loop_step [OF this]
  show "scan_loop lz zl name pid ((start, stop) # ms) (ext, errs) s =
         scan_loop lz zl name pid ms
           (ext, errs @ [\<lparr>error = unable_msg (int start), plugin_name = name, payload_id = pid\<rparr>])
           s1"
    by (simp add: collect_failure)
next
  show "\<exists>r s1. decompress lz zl offset s = (Inr r, s1)"
    using decompress_returns [of lz zl offset s] by blast
next
  show "\<exists>r s1. scan_loop lz zl name pid cs acc s = (Inr r, s1)"
    using scan_loop_returns [of lz zl name pid cs acc s] by blast
qed

lemma truncated_header:
  "read_header 0 (BytesIO_new (bFWS @ [9, 11, 0])) =
     (Inl StructError, \<lparr>buf = bFWS @ [9, 11, 0], pos = 6\<rparr>)"
  by (simp add: read_header_def bind_io_def seek_def read_def peek_def
      lift_io_def decode_def unpack_b_def unpack_i_def BytesIO_new_def bFWS_def)

theorem header_fault_is_reported_and_scan_goes_on_witness:
  "int (length (buf (BytesIO_new (bFWS @ [9, 11, 0])))) < 0 + 8
   \<and> read_header 0 (BytesIO_new (bFWS @ [9, 11, 0])) =
       (Inl StructError, \<lparr>buf = bFWS @ [9, 11, 0], pos = 6\<rparr>)
   \<and> decompress_body rle_codec rle_codec 0 (BytesIO_new (bFWS @ [9, 11, 0])) =
       (Inl StructError, \<lparr>buf = bFWS @ [9, 11, 0], pos = 6\<rparr>)
   \<and> decompress rle_codec rle_codec 0 (BytesIO_new (bFWS @ [9, 11, 0])) =
       (Inr (EmptyList, [''Unable to decompress SWF payload at offset 0'']),
        \<lparr>buf = bFWS @ [9, 11, 0], pos = 6\<rparr>)
   \<and> scan_loop rle_codec rle_codec ''swfcarve'' ''p1'' [(0, 3)] ([], [])
         (BytesIO_new (bFWS @ [9, 11, 0])) =
       (Inr ([], [\<lparr>error = ''Unable to decompress SWF payload at offset 0'',
                    plugin_name = ''swfcarve'', payload_id = ''p1''\<rparr>]),
        \<lparr>buf = bFWS @ [9, 11, 0], pos = 6\<rparr>)"
proof -
  let ?s = "BytesIO_new (bFWS @ [9, 11, 0])"
  let ?s1 = "\<lparr>buf = bFWS @ [9, 11, 0], pos = 6\<rparr>"
  have len: "int (length (buf ?s)) < 0 + 8" by (simp add: BytesIO_new_def bFWS_def)
  have hd: "read_header 0 ?s = (Inl StructError, ?s1)" by (rule truncated_header)
  note t = header_fault_is_reported_and_scan_goes_on
    [where s = ?s and offset = 0 and lz = rle_codec and zl = rle_codec and start = 0
       and name = "''swfcarve''" and pid = "''p1''" and stop = 3 and ms = "[]"
       and ext = "[]" and errs = "[]" and cs = "[]" and acc = "([], [])"]
  from t hd have body: "decompress_body rle_codec rle_codec 0 ?s = (Inl StructError, ?s1)"
    by blast
  from t hd have d: "decompress rle_codec rle_codec 0 ?s =
      (Inr (EmptyList, [unable_msg 0]), ?s1)" by blast
  from t hd have l: "scan_loop rle_codec rle_codec ''swfcarve'' ''p1'' [(0, 3)] ([], []) ?s =
      scan_loop rle_codec rle_codec ''swfcarve'' ''p1'' []
        ([], [] @ [\<lparr>error = unable_msg (int 0), plugin_name = ''swfcarve'', payload_id = ''p1''\<rparr>]) ?s1"
    by simp
  from len hd body d l show ?thesis by (simp add: unable_msg_0 return_io_def)
qed

subsection \<open>C2: a decompression library that raises\<close>

text \<open>
  C2 as stated, refuted: the claim says that when the decompression library raises,
  \<^verbatim>\<open>decompress\<close> returns no object and reports a failure reason that refers to the offset.
  On a \<^verbatim>\<open>CWS\<close> candidate whose compressed data make the library raise, \<^verbatim>\<open>decompress\<close> returns
  \<^verbatim>\<open>None\<close> and an empty list of reasons: the inner \<^verbatim>\<open>except\<close> of line 123 returns at once.
\<close>

theorem library_error_reports_nothing:
  "rle_codec [5] = Inl LibraryError
   \<and> peek 1 (BytesIO_new (bCWS @ [9, 9, 0, 0, 0, 5])\<lparr>pos := 8\<rparr>) = [5]
   \<and> decompress rle_codec rle_codec 0 (BytesIO_new (bCWS @ [9, 9, 0, 0, 0, 5])) =
       (Inr (NoneValue, []), \<lparr>buf = bCWS @ [9, 9, 0, 0, 0, 5], pos = 9\<rparr>)"
proof -
  let ?s = "BytesIO_new (bCWS @ [9, 9, 0, 0, 0, 5])"
  have c: "rle_codec [5] = Inl LibraryError" by simp
  have p: "peek 1 (?s\<lparr>pos := 8\<rparr>) = [5]" by (simp add: peek_def BytesIO_new_def bCWS_def)
  have h: "read_header 0 ?s = (Inr (bCWS, 9, 1, bFWS @ [9, 9, 0, 0, 0]), ?s\<lparr>pos := 8\<rparr>)"
    using read_header_ok [of 0 ?s]
    by (simp add: BytesIO_new_def bCWS_def le_i32_def le_u32_def)
  have d: "try_dispatch rle_codec rle_codec bCWS 1 (?s\<lparr>pos := 8\<rparr>) =
             (Inr None, ?s\<lparr>pos := 9\<rparr>)"
    unfolding try_dispatch_CWS p c by (simp add: BytesIO_new_def)
  from decompress_header_ok [OF h d] c p show ?thesis
    by (simp add: assemble_def BytesIO_new_def)
qed

text \<open>
  C2 as amended: for every candidate whose header is read and whose variant is \<^verbatim>\<open>CWS\<close> or
  \<^verbatim>\<open>ZWS\<close>, when the decompression library raises on the data read for it, \<^verbatim>\<open>decompress\<close>
  returns \<^verbatim>\<open>None\<close> and no failure reason; nothing is raised, and the loop of \<^verbatim>\<open>scan\<close> goes
  on with the remaining candidates, its lists unchanged.
\<close>

theorem library_error_is_skipped_silently:
  assumes "read_header offset s = (Inr (magic, ver, dsize, hdr), s1)"
    and "(magic = bCWS \<and> zl (peek dsize s1) = Inl e)
         \<or> (magic = bZWS \<and> lz (peek dsize (s1\<lparr>pos := 12\<rparr>)) = Inl e)"
  shows "\<exists>s2. decompress lz zl offset s = (Inr (NoneValue, []), s2)
              \<and> scan_loop lz zl name pid ((nat offset, stop) # ms) acc s =
                  scan_loop lz zl name pid ms acc s2"
proof -
  from assms(2) obtain s2 where d: "try_dispatch lz zl magic dsize s1 = (Inr None, s2)"
    by (auto simp: try_dispatch_CWS try_dispatch_ZWS)
  from decompress_header_ok [OF assms(1) d]
  have r: "decompress lz zl offset s = (Inr (NoneValue, []), s2)"
    by (simp add: assemble_def)
  from read_header_InrD [OF assms(1)] have "int (nat offset) = offset" by simp
  with r have "decompress lz zl (int (fst (nat offset, stop))) s = (Inr (NoneValue, []), s2)"
    by simp
  from scan_loop_step [OF this] r show ?thesis by (simp add: collect_nothing)
qed

theorem library_error_is_skipped_silently_witness:
  "read_header 0 (BytesIO_new (bCWS @ [9, 9, 0, 0, 0, 5])) =
     (Inr (bCWS, 9, 1, bFWS @ [9, 9, 0, 0, 0]), BytesIO_new (bCWS @ [9, 9, 0, 0, 0, 5])\<lparr>pos := 8\<rparr>)
   \<and> rle_codec (peek 1 (BytesIO_new (bCWS @ [9, 9, 0, 0, 0, 5])\<lparr>pos := 8\<rparr>)) = Inl LibraryError
   \<and> (\<exists>s2. decompress rle_codec rle_codec 0 (BytesIO_new (bCWS @ [9, 9, 0, 0, 0, 5])) =
              (Inr (NoneValue, []), s2)
            \<and> scan_loop rle_codec rle_codec ''swfcarve'' ''p1'' [(nat 0, 3)] ([], [])
                 (BytesIO_new (bCWS @ [9, 9, 0, 0, 0, 5])) =
               scan_loop rle_codec rle_codec ''swfcarve'' ''p1'' [] ([], []) s2)"
proof -
  let ?s = "BytesIO_new (bCWS @ [9, 9, 0, 0, 0, 5])"
  have h: "read_header 0 ?s = (Inr (bCWS, 9, 1, bFWS @ [9, 9, 0, 0, 0]), ?s\<lparr>pos := 8\<rparr>)"
    using read_header_ok [of 0 ?s]
    by (simp add: BytesIO_new_def bCWS_def le_i32_def le_u32_def)
  have c: "rle_codec (peek 1 (?s\<lparr>pos := 8\<rparr>)) = Inl LibraryError"
    by (simp add: peek_def BytesIO_new_def bCWS_def)
  from c have "(bCWS = bCWS \<and> rle_codec (peek 1 (?s\<lparr>pos := 8\<rparr>)) = Inl LibraryError)
         \<or> (bCWS = bZWS \<and> rle_codec (peek 1 (?s\<lparr>pos := 8\<rparr>\<lparr>pos := 12\<rparr>)) = Inl LibraryError)"
    by simp
  from library_error_is_skipped_silently
    [where lz = rle_codec and zl = rle_codec and e = LibraryError
       and name = "''swfcarve''" and pid = "''p1''" and stop = 3 and ms = "[]"
       and acc = "([], [])", OF h this] h c
  show ?thesis by blast
qed

subsection \<open>C5: a magic the dispatch does not know\<close>

text \<open>
  C5 as stated, refuted: the claim says that every candidate whose 3-byte magic is not a
  recognised variant yields no object and no error at all. The candidate \<^verbatim>\<open>SWF\<close>, which the
  default pattern matches, followed by two bytes only, yields the failure of line 137:
  the header is unpacked before the magic is looked at.
\<close>

theorem unrecognized_magic_with_truncated_header_is_reported:
  "bSWF \<noteq> bFWS \<and> bSWF \<noteq> bCWS \<and> bSWF \<noteq> bZWS
   \<and> take 3 (drop 0 (bSWF @ [9, 11])) = bSWF
   \<and> decompress rle_codec rle_codec 0 (BytesIO_new (bSWF @ [9, 11])) =
       (Inr (EmptyList, [''Unable to decompress SWF payload at offset 0'']),
        \<lparr>buf = bSWF @ [9, 11], pos = 5\<rparr>)"
proof -
  have b: "decompress_body rle_codec rle_codec 0 (BytesIO_new (bSWF @ [9, 11])) =
     (Inl StructError, \<lparr>buf = bSWF @ [9, 11], pos = 5\<rparr>)"
    by (simp add: decompress_body_def read_header_def bind_io_def seek_def read_def peek_def
      lift_io_def decode_def unpack_b_def unpack_i_def BytesIO_new_def bSWF_def)
  from decompress_body_raises [OF b] show ?thesis
    by (simp add: unable_msg_0) (simp add: bSWF_def bFWS_def bCWS_def bZWS_def)
qed

text \<open>
  C5 as amended: for every candidate with a complete 8-byte header whose 3-byte magic
  decodes as UTF-8 and is none of \<^verbatim>\<open>FWS\<close>, \<^verbatim>\<open>CWS\<close>, \<^verbatim>\<open>ZWS\<close>, \<^verbatim>\<open>decompress\<close> returns \<^verbatim>\<open>None\<close> and
  no error at all.
\<close>

theorem unrecognized_magic_is_skipped_silently:
  assumes "0 \<le> offset" and "nat offset + 8 \<le> length (buf s)"
    and "magic = take 3 (drop (nat offset) (buf s))" and "utf8_valid magic"
    and "magic \<noteq> bFWS" and "magic \<noteq> bCWS" and "magic \<noteq> bZWS"
  shows "decompress lz zl offset s = (Inr (NoneValue, []), s\<lparr>pos := nat offset + 8\<rparr>)"
proof -
  from assms(3,4) have u: "utf8_valid (take 3 (drop (nat offset) (buf s)))" by simp
  have d: "try_dispatch lz zl (take 3 (drop (nat offset) (buf s)))
             (le_i32 (take 4 (drop (nat offset + 4) (buf s))) - 8) (s\<lparr>pos := nat offset + 8\<rparr>) =
           (Inr None, s\<lparr>pos := nat offset + 8\<rparr>)"
    using assms(3,5,6,7) by (simp add: try_dispatch_other)
  from decompress_header_ok [OF read_header_ok [OF assms(1,2) u] d]
  show ?thesis by (simp add: assemble_def)
qed

theorem unrecognized_magic_is_skipped_silently_witness:
  "(0::int) \<le> 0 \<and> nat 0 + 8 \<le> length (buf (BytesIO_new (bSWF @ [9, 11, 0, 0, 0, 1, 2, 3])))
   \<and> bSWF = take 3 (drop (nat 0) (buf (BytesIO_new (bSWF @ [9, 11, 0, 0, 0, 1, 2, 3]))))
   \<and> utf8_valid bSWF \<and> bSWF \<noteq> bFWS \<and> bSWF \<noteq> bCWS \<and> bSWF \<noteq> bZWS
   \<and> decompress rle_codec rle_codec 0 (BytesIO_new (bSWF @ [9, 11, 0, 0, 0, 1, 2, 3])) =
       (Inr (NoneValue, []), \<lparr>buf = bSWF @ [9, 11, 0, 0, 0, 1, 2, 3], pos = 8\<rparr>)"
proof -
  let ?s = "BytesIO_new (bSWF @ [9, 11, 0, 0, 0, 1, 2, 3])"
  have 1: "(0::int) \<le> 0" by simp
  have 2: "nat 0 + 8 \<le> length (buf ?s)" by (simp add: BytesIO_new_def bSWF_def)
  have 3: "bSWF = take 3 (drop (nat 0) (buf ?s))" by (simp add: BytesIO_new_def bSWF_def)
  have 4: "utf8_valid bSWF" by (simp add: bSWF_def)
  have 5: "bSWF \<noteq> bFWS" "bSWF \<noteq> bCWS" "bSWF \<noteq> bZWS"
    by (simp_all add: bSWF_def bFWS_def bCWS_def bZWS_def)
  from unrecognized_magic_is_skipped_silently [OF 1 2 3 4 5, of rle_codec rle_codec]
    1 2 3 4 5
  show ?thesis by (simp add: BytesIO_new_def)
qed

subsection \<open>C6: the layout of a reconstructed object\<close>

lemma decompress_ExtractedD:
  assumes "decompress lz zl offset s = (Inr (Extracted p, errs), s2)"
  shows "\<exists>magic ver dsize hdr s1 body.
           read_header offset s = (Inr (magic, ver, dsize, hdr), s1) \<and>
           try_dispatch lz zl magic dsize s1 = (Inr (Some body), s2) \<and>
           int (length body) = dsize \<and>
           p = \<lparr>content = hdr @ body,
                payload_meta = \<lparr>meta_offset = offset, meta_swf_version = ver\<rparr>\<rparr> \<and>
           errs = []"
proof (cases "read_header offset s")
  case (Pair h s1)
  show ?thesis
  proof (cases h)
    case (Inl e)
    with Pair have "fst (read_header offset s) = Inl e" by simp
    from decompress_header_fails [OF this] assms show ?thesis by simp
  next
    case (Inr t)
    obtain magic ver dsize hdr where t: "t = (magic, ver, dsize, hdr)" by (cases t) auto
    obtain r s3 where d: "try_dispatch lz zl magic dsize s1 = (Inr r, s3)"
      using try_dispatch_returns by blast
    from decompress_header_ok [OF Pair [unfolded Inr t] d] assms
    have a: "assemble offset ver dsize hdr r = (Extracted p, errs)" and s: "s3 = s2" by simp_all
    from a obtain body where "r = Some body" "int (length body) = dsize"
      "p = \<lparr>content = hdr @ body,
                payload_meta = \<lparr>meta_offset = offset, meta_swf_version = ver\<rparr>\<rparr>" "errs = []"
      by (cases r) (auto simp: assemble_def split: if_splits)
    with Pair Inr t d s show ?thesis by simp
  qed
qed








subsection \<open>C10: the length and the magic of a reconstructed object\<close>

text \<open>
  C10: every object \<^verbatim>\<open>decompress\<close> builds is exactly as long as the length its candidate
  declares (the signed 32-bit field at \<open>offset + 4\<close>): an 8-byte header and a body of the
  declared length minus 8; and its first three bytes are \<^verbatim>\<open>b'FWS'\<close>. This holds for every
  stream, offset, variant and pair of decompression functions.
\<close>

theorem reconstructed_object_length:
  assumes "decompress lz zl offset s = (Inr (Extracted p, errs), s2)"
  shows "unpack_i (take 4 (drop (nat offset + 4) (buf s))) = Inr (int (length (content p)))
         \<and> (\<exists>body. content p = bFWS @ take 5 (drop (nat offset + 3) (buf s)) @ body
                \<and> int (length body) = int (length (content p)) - 8)
         \<and> take 3 (content p) = bFWS"
proof -
  from decompress_ExtractedD [OF assms] obtain magic ver dsize hdr s1 body where
    h: "read_header offset s = (Inr (magic, ver, dsize, hdr), s1)"
    and l: "int (length body) = dsize"
    and p: "p = \<lparr>content = hdr @ body,
                payload_meta = \<lparr>meta_offset = offset, meta_swf_version = ver\<rparr>\<rparr>"
    by blast
  from read_header_InrD [OF h] have len: "nat offset + 8 \<le> length (buf s)"
    and dsize: "dsize = le_i32 (take 4 (drop (nat offset + 4) (buf s))) - 8"
    and hdr: "hdr = bFWS @ take 5 (drop (nat offset + 3) (buf s))" by simp_all
  from len hdr have lh: "length hdr = 8" by (simp add: bFWS_def)
  from lh l dsize p have c: "int (length (content p)) = le_i32 (take 4 (drop (nat offset + 4) (buf s)))"
    by simp
  from len c have 1: "unpack_i (take 4 (drop (nat offset + 4) (buf s))) = Inr (int (length (content p)))"
    by (simp add: unpack_i_def)
  from p hdr lh have 2: "content p = bFWS @ take 5 (drop (nat offset + 3) (buf s)) @ body
      \<and> int (length body) = int (length (content p)) - 8" by simp
  from p hdr have 3: "take 3 (content p) = bFWS" by (simp add: bFWS_def)
  from 1 2 3 show ?thesis by blast
qed

lemma fws_sample_decompress:
  "decompress lz zl 1 (BytesIO_new ([0] @ bFWS @ [10, 10, 0, 0, 0, 1, 2, 3])) =
     (Inr (Extracted \<lparr>content = bFWS @ [10, 10, 0, 0, 0] @ [1, 2],
                      payload_meta = \<lparr>meta_offset = 1, meta_swf_version = 10\<rparr>\<rparr>, []),
      \<lparr>buf = [0] @ bFWS @ [10, 10, 0, 0, 0, 1, 2, 3], pos = 11\<rparr>)"
proof -
  let ?s = "BytesIO_new ([0] @ bFWS @ [10, 10, 0, 0, 0, 1, 2, 3])"
  have h: "read_header 1 ?s = (Inr (bFWS, 10, 2, bFWS @ [10, 10, 0, 0, 0]), ?s\<lparr>pos := 9\<rparr>)"
    using read_header_ok [of 1 ?s]
    by (simp add: BytesIO_new_def bFWS_def le_i32_def le_u32_def)
  have d: "try_dispatch lz zl bFWS 2 (?s\<lparr>pos := 9\<rparr>) = (Inr (Some [1, 2]), ?s\<lparr>pos := 11\<rparr>)"
    unfolding try_dispatch_FWS by (simp add: peek_def BytesIO_new_def bFWS_def)
  from decompress_header_ok [OF h d] show ?thesis
    by (simp add: assemble_def BytesIO_new_def)
qed

theorem reconstructed_object_length_witness:
  "decompress rle_codec rle_codec 1 (BytesIO_new ([0] @ bFWS @ [10, 10, 0, 0, 0, 1, 2, 3])) =
     (Inr (Extracted \<lparr>content = bFWS @ [10, 10, 0, 0, 0] @ [1, 2],
                      payload_meta = \<lparr>meta_offset = 1, meta_swf_version = 10\<rparr>\<rparr>, []),
      \<lparr>buf = [0] @ bFWS @ [10, 10, 0, 0, 0, 1, 2, 3], pos = 11\<rparr>)
   \<and> unpack_i [10, 0, 0, 0] = Inr (int (length (bFWS @ [10, 10, 0, 0, 0] @ [1, 2])))
   \<and> length (bFWS @ [10, 10, 0, 0, 0] @ [1, 2]) = 10
   \<and> take 3 (bFWS @ [10, 10, 0, 0, 0] @ [1, 2]) = bFWS"
proof -
  note d = fws_sample_decompress [of rle_codec rle_codec]
  from reconstructed_object_length [OF d] d show ?thesis
    by (simp add: BytesIO_new_def bFWS_def)
qed

subsection \<open>C9: a declared length below 8\<close>

text \<open>
  C9: when the length field of a candidate makes the expected size negative, \<^verbatim>\<open>decompress\<close>
  returns, with no object: the result is the size failure of line 128 (always so for the
  uncompressed variant), a silent \<^verbatim>\<open>None\<close>, or the failure of line 137 when the magic does
  not decode. \<^verbatim>\<open>read\<close> with a negative size returns the rest of the stream and raises
  nothing, and no length is equal to a negative size.
\<close>

theorem negative_expected_size_yields_no_object:
  assumes "0 \<le> offset" and "nat offset + 8 \<le> length (buf s)"
    and "le_i32 (take 4 (drop (nat offset + 4) (buf s))) - 8 < 0"
  shows "\<exists>r s2. decompress lz zl offset s = (Inr r, s2)
           \<and> \<not> truthy (fst r)
           \<and> (r = (NoneValue, []) \<or> r = (EmptyList, [invalid_size_msg])
                \<or> r = (EmptyList, [unable_msg offset]))
           \<and> (take 3 (drop (nat offset) (buf s)) = bFWS \<longrightarrow> r = (EmptyList, [invalid_size_msg]))"
proof (cases "utf8_valid (take 3 (drop (nat offset) (buf s)))")
  case False
  then obtain e where "fst (read_header offset s) = Inl e"
    using read_header_fails [of offset s] by blast
  from decompress_header_fails [OF this] False show ?thesis by (auto simp: bFWS_def)
next
  case True
  let ?magic = "take 3 (drop (nat offset) (buf s))"
  let ?dsize = "le_i32 (take 4 (drop (nat offset + 4) (buf s))) - 8"
  note h = read_header_ok [OF assms(1,2) True]
  obtain r s2 where d: "try_dispatch lz zl ?magic ?dsize (s\<lparr>pos := nat offset + 8\<rparr>) = (Inr r, s2)"
    using try_dispatch_returns by blast
  note dec = decompress_header_ok [OF h d]
  have a: "assemble offset (sint (buf s ! (nat offset + 3))) ?dsize
             (bFWS @ take 5 (drop (nat offset + 3) (buf s))) r =
           (case r of None \<Rightarrow> (NoneValue, []) | Some b \<Rightarrow> (EmptyList, [invalid_size_msg]))"
    using assms(3) by (cases r) (simp_all add: assemble_def)
  have f: "?magic = bFWS \<longrightarrow> r \<noteq> None"
    using d by (auto simp: try_dispatch_FWS)
  from dec a f show ?thesis by (cases r) auto
qed

theorem negative_expected_size_yields_no_object_witness:
  "(0::int) \<le> 0 \<and> nat 0 + 8 \<le> length (buf (BytesIO_new (bFWS @ [9, 4, 0, 0, 0, 1, 2, 3])))
   \<and> le_i32 (take 4 (drop (nat 0 + 4) (buf (BytesIO_new (bFWS @ [9, 4, 0, 0, 0, 1, 2, 3]))))) - 8 < 0
   \<and> take 3 (drop (nat 0) (buf (BytesIO_new (bFWS @ [9, 4, 0, 0, 0, 1, 2, 3])))) = bFWS
   \<and> fst (decompress rle_codec rle_codec 0 (BytesIO_new (bFWS @ [9, 4, 0, 0, 0, 1, 2, 3]))) =
       Inr (EmptyList, [invalid_size_msg])"
proof -
  let ?s = "BytesIO_new (bFWS @ [9, 4, 0, 0, 0, 1, 2, 3])"
  have 1: "(0::int) \<le> 0" by simp
  have 2: "nat 0 + 8 \<le> length (buf ?s)" by (simp add: BytesIO_new_def bFWS_def)
  have 3: "le_i32 (take 4 (drop (nat 0 + 4) (buf ?s))) - 8 < 0"
    by (simp add: BytesIO_new_def bFWS_def le_i32_def le_u32_def)
  have 4: "take 3 (drop (nat 0) (buf ?s)) = bFWS" by (simp add: BytesIO_new_def bFWS_def)
  from negative_expected_size_yields_no_object [OF 1 2 3, of rle_codec rle_codec] 4
  have "fst (decompress rle_codec rle_codec 0 ?s) = Inr (EmptyList, [invalid_size_msg])"
    by auto
  with 1 2 3 4 show ?thesis by blast
qed

subsection \<open>C4: where the LZMA data are read\<close>

lemma zws_sample_header:
  "read_header 0 (BytesIO_new (bZWS @ [13, 10, 0, 0, 0, 1, 2, 3, 4, 7, 8])) =
     (Inr (bZWS, 13, 2, bFWS @ [13, 10, 0, 0, 0]),
      BytesIO_new (bZWS @ [13, 10, 0, 0, 0, 1, 2, 3, 4, 7, 8])\<lparr>pos := 8\<rparr>)"
  using read_header_ok [of 0 "BytesIO_new (bZWS @ [13, 10, 0, 0, 0, 1, 2, 3, 4, 7, 8])"]
  by (simp add: BytesIO_new_def bZWS_def le_i32_def le_u32_def)

text \<open>
  C4 as stated, refuted: the claim says that for the LZMA variant the compressed data are
  read from the byte that follows the 8-byte header, \<open>offset + 8\<close>. For a \<^verbatim>\<open>ZWS\<close> candidate at
  offset 0 whose bytes 8 and 9 are 1, 2 and whose bytes 12 and 13 are 7, 8, with an expected
  size of 2, the library is given 7, 8: line 109 seeks to byte 12. (The library here is
  the one that returns its input, so the body of the object shows what was read.)
\<close>

theorem lzma_data_not_read_after_header:
  "read_header 0 (BytesIO_new (bZWS @ [13, 10, 0, 0, 0, 1, 2, 3, 4, 7, 8])) =
     (Inr (bZWS, 13, 2, bFWS @ [13, 10, 0, 0, 0]),
      BytesIO_new (bZWS @ [13, 10, 0, 0, 0, 1, 2, 3, 4, 7, 8])\<lparr>pos := 8\<rparr>)
   \<and> peek 2 (BytesIO_new (bZWS @ [13, 10, 0, 0, 0, 1, 2, 3, 4, 7, 8])\<lparr>pos := 0 + 8\<rparr>) = [1, 2]
   \<and> try_dispatch Inr Inr bZWS 2
        (BytesIO_new (bZWS @ [13, 10, 0, 0, 0, 1, 2, 3, 4, 7, 8])\<lparr>pos := 8\<rparr>) =
       (Inr (Some [7, 8]), \<lparr>buf = bZWS @ [13, 10, 0, 0, 0, 1, 2, 3, 4, 7, 8], pos = 14\<rparr>)
   \<and> decompress Inr Inr 0 (BytesIO_new (bZWS @ [13, 10, 0, 0, 0, 1, 2, 3, 4, 7, 8])) =
       (Inr (Extracted \<lparr>content = bFWS @ [13, 10, 0, 0, 0] @ [7, 8],
                        payload_meta = \<lparr>meta_offset = 0, meta_swf_version = 13\<rparr>\<rparr>, []),
        \<lparr>buf = bZWS @ [13, 10, 0, 0, 0, 1, 2, 3, 4, 7, 8], pos = 14\<rparr>)"
proof -
  let ?s = "BytesIO_new (bZWS @ [13, 10, 0, 0, 0, 1, 2, 3, 4, 7, 8])"
  have p8: "peek 2 (?s\<lparr>pos := 0 + 8\<rparr>) = [1, 2]"
    by (simp add: peek_def BytesIO_new_def bZWS_def)
  have p12: "peek 2 (?s\<lparr>pos := 8\<rparr>\<lparr>pos := 12\<rparr>) = [7, 8]"
    by (simp add: peek_def BytesIO_new_def bZWS_def)
  have d: "try_dispatch Inr Inr bZWS 2 (?s\<lparr>pos := 8\<rparr>) =
             (Inr (Some [7, 8]), \<lparr>buf = bZWS @ [13, 10, 0, 0, 0, 1, 2, 3, 4, 7, 8], pos = 14\<rparr>)"
    unfolding try_dispatch_ZWS p12 by (simp add: BytesIO_new_def)
  from decompress_header_ok [OF zws_sample_header d] zws_sample_header p8 d show ?thesis
    by (simp add: assemble_def)
qed

text \<open>
  C4 as amended: for the LZMA variant and a candidate at start offset 0, \<^verbatim>\<open>decompress\<close> reads
  the compressed data at byte 12, that is 12 bytes after the start of the candidate (the
  8-byte header and the 4 bytes after it are skipped): at most the expected size, or all
  that is left when the expected size is negative; and it applies the LZMA library to them.
\<close>

theorem lzma_reads_at_byte_12_for_first_candidate:
  assumes "read_header 0 s = (Inr (bZWS, ver, dsize, hdr), s1)"
  shows "try_dispatch lz zl bZWS dsize s1 =
           (case lz (peek dsize (s\<lparr>pos := 0 + 12\<rparr>)) of
              Inl e \<Rightarrow> Inr None
            | Inr r \<Rightarrow> Inr (Some r),
            s\<lparr>pos := 12 + length (peek dsize (s\<lparr>pos := 0 + 12\<rparr>))\<rparr>)
         \<and> peek dsize (s\<lparr>pos := 0 + 12\<rparr>) =
             (if dsize < 0 then drop 12 (buf s) else take (nat dsize) (drop 12 (buf s)))"
proof -
  from read_header_InrD [OF assms] have s1: "s1 = s\<lparr>pos := 8\<rparr>" by simp
  show ?thesis unfolding try_dispatch_ZWS s1 by (simp add: peek_def)
qed

theorem lzma_reads_at_byte_12_for_first_candidate_witness:
  "read_header 0 (BytesIO_new (bZWS @ [13, 12, 0, 0, 0, 1, 2, 3, 4, 4, 7])) =
     (Inr (bZWS, 13, 4, bFWS @ [13, 12, 0, 0, 0]),
      BytesIO_new (bZWS @ [13, 12, 0, 0, 0, 1, 2, 3, 4, 4, 7])\<lparr>pos := 8\<rparr>)
   \<and> try_dispatch rle_codec rle_codec bZWS 4
        (BytesIO_new (bZWS @ [13, 12, 0, 0, 0, 1, 2, 3, 4, 4, 7])\<lparr>pos := 8\<rparr>) =
       (Inr (Some [7, 7, 7, 7]), \<lparr>buf = bZWS @ [13, 12, 0, 0, 0, 1, 2, 3, 4, 4, 7], pos = 14\<rparr>)"
proof -
  let ?s = "BytesIO_new (bZWS @ [13, 12, 0, 0, 0, 1, 2, 3, 4, 4, 7])"
  have h: "read_header 0 ?s = (Inr (bZWS, 13, 4, bFWS @ [13, 12, 0, 0, 0]), ?s\<lparr>pos := 8\<rparr>)"
    using read_header_ok [of 0 ?s]
    by (simp add: BytesIO_new_def bZWS_def le_i32_def le_u32_def)
  have "replicate 4 (7::byte) = [7, 7, 7, 7]" by (simp add: numeral_eq_Suc)
  then have c: "rle_codec [4, 7] = Inr [7, 7, 7, 7]" by simp
  have t: "take (nat 4) (drop 12 (buf ?s)) = [4, 7]" by (simp add: BytesIO_new_def bZWS_def)
  from lzma_reads_at_byte_12_for_first_candidate [OF h, of rle_codec rle_codec]
  have "try_dispatch rle_codec rle_codec bZWS 4 (?s\<lparr>pos := 8\<rparr>) =
       (Inr (Some [7, 7, 7, 7]), \<lparr>buf = bZWS @ [13, 12, 0, 0, 0, 1, 2, 3, 4, 4, 7], pos = 14\<rparr>)"
    using t c by (simp add: BytesIO_new_def)
  with h show ?thesis by simp
qed

subsection \<open>C8: scanning twice\<close>

text \<open>
  The scanner consumes the stream it is given: \<^verbatim>\<open>_carve\<close> on the same stream again, without
  a rewind, searches the empty rest. A second scan is a scan of a fresh stream over the
  same bytes, as \<^verbatim>\<open>scan\<close> builds one at each call.
\<close>

lemma carve_again_on_the_same_stream:
  "carve engine pattern (snd (scanner engine pattern s)) =
     (finditer engine pattern [], s\<lparr>pos := length (buf s)\<rparr>)"
  by (simp add: scanner_eq carve_eq)

lemma default_finditer_sample:
  "finditer engine (swf_headers None) (encode ''xxFWSabCWSSWF'') =
     Inr [(2, 5), (7, 10), (10, 13)]"
proof -
  have "finditer_literal (swf_headers None) (encode ''xxFWSabCWSSWF'') =
          [(2, 5), (7, 10), (10, 13)]"
    by (simp add: finditer_literal_def finditer_from.simps first_match_def alternatives_def
        swf_headers_def swf_headers_fallback_def encode_def)
  with default_pattern_literal show ?thesis by (simp add: finditer_def)
qed

lemma star_pattern_not_literal: "\<not> literal_pattern (encode ''*FWS'')"
  by (simp add: literal_pattern_def encode_def regex_special_def)

text \<open>
  C8: for every pattern and every behaviour of the regular expression library, the
  scanner, run on a fresh stream over a buffer, yields what \<^verbatim>\<open>re.finditer\<close> yields for the
  pattern on the buffer (the sequence of offset pairs, or its exception) and leaves the
  bytes of the stream as they were; so does the whole of \<^verbatim>\<open>scan\<close>, with all its calls of
  \<^verbatim>\<open>decompress\<close>. Running the scanner again on a fresh stream over the bytes either of them
  leaves behind yields the same sequence of offset pairs.
\<close>

theorem scanner_restartable:
  "scanner engine pattern (BytesIO_new b) =
     (finditer engine pattern b, \<lparr>buf = b, pos = length b\<rparr>)
   \<and> scanner engine pattern (BytesIO_new (buf (snd (scanner engine pattern (BytesIO_new b))))) =
       scanner engine pattern (BytesIO_new b)
   \<and> buf (snd (scan engine lz zl pattern name pid b)) = b
   \<and> scanner engine pattern (BytesIO_new (buf (snd (scan engine lz zl pattern name pid b)))) =
       scanner engine pattern (BytesIO_new b)"
proof -
  have 1: "scanner engine pattern (BytesIO_new b) =
      (finditer engine pattern b, \<lparr>buf = b, pos = length b\<rparr>)"
    by (simp add: scanner_eq BytesIO_new_def)
  have 2: "buf (snd (scan engine lz zl pattern name pid b)) = b" by (rule scan_buf)
  from 1 2 show ?thesis by simp
qed

theorem scanner_restartable_witness:
  "scanner strict_engine (swf_headers None) (BytesIO_new (encode ''xxFWSabCWSSWF'')) =
     (Inr [(2, 5), (7, 10), (10, 13)], \<lparr>buf = encode ''xxFWSabCWSSWF'', pos = 13\<rparr>)
   \<and> scanner strict_engine (swf_headers None)
        (BytesIO_new (buf (snd (scan strict_engine rle_codec rle_codec (swf_headers None)
                                  ''swfcarve'' ''p1'' (encode ''xxFWSabCWSSWF''))))) =
     (Inr [(2, 5), (7, 10), (10, 13)], \<lparr>buf = encode ''xxFWSabCWSSWF'', pos = 13\<rparr>)
   \<and> scanner strict_engine (encode ''*FWS'') (BytesIO_new (encode ''xxFWSabCWSSWF'')) =
     (Inl ReError, \<lparr>buf = encode ''xxFWSabCWSSWF'', pos = 13\<rparr>)
   \<and> scanner strict_engine (encode ''*FWS'')
        (BytesIO_new (buf (snd (scanner strict_engine (encode ''*FWS'')
                                  (BytesIO_new (encode ''xxFWSabCWSSWF'')))))) =
     (Inl ReError, \<lparr>buf = encode ''xxFWSabCWSSWF'', pos = 13\<rparr>)"
proof -
  have l: "length (encode ''xxFWSabCWSSWF'') = 13" by (simp add: encode_def)
  have r: "finditer strict_engine (encode ''*FWS'') (encode ''xxFWSabCWSSWF'') = Inl ReError"
    using star_pattern_not_literal by (simp add: finditer_def strict_engine_def)
  from scanner_restartable [of strict_engine "swf_headers None" "encode ''xxFWSabCWSSWF''"
      rle_codec rle_codec "''swfcarve''" "''p1''"]
  have a: "scanner strict_engine (swf_headers None) (BytesIO_new (encode ''xxFWSabCWSSWF'')) =
     (Inr [(2, 5), (7, 10), (10, 13)], \<lparr>buf = encode ''xxFWSabCWSSWF'', pos = 13\<rparr>)
   \<and> scanner strict_engine (swf_headers None)
        (BytesIO_new (buf (snd (scan strict_engine rle_codec rle_codec (swf_headers None)
                                  ''swfcarve'' ''p1'' (encode ''xxFWSabCWSSWF''))))) =
     (Inr [(2, 5), (7, 10), (10, 13)], \<lparr>buf = encode ''xxFWSabCWSSWF'', pos = 13\<rparr>)"
    unfolding default_finditer_sample l by simp
  from scanner_restartable [of strict_engine "encode ''*FWS''" "encode ''xxFWSabCWSSWF''"
      rle_codec rle_codec "''swfcarve''" "''p1''"]
  have b: "scanner strict_engine (encode ''*FWS'') (BytesIO_new (encode ''xxFWSabCWSSWF'')) =
     (Inl ReError, \<lparr>buf = encode ''xxFWSabCWSSWF'', pos = 13\<rparr>)
   \<and> scanner strict_engine (encode ''*FWS'')
        (BytesIO_new (buf (snd (scanner strict_engine (encode ''*FWS'')
                                  (BytesIO_new (encode ''xxFWSabCWSSWF'')))))) =
     (Inl ReError, \<lparr>buf = encode ''xxFWSabCWSSWF'', pos = 13\<rparr>)"
    unfolding r l by simp
  from a b show ?thesis by simp
qed

end
